theory Spec2Isabelle
  imports Complex_Main "HOL-Library.Word"
begin

section \<open>The DICOM pixel pipeline of convert_dicom_to_dzi.py\<close>

text \<open>
  The development embeds \<^verbatim>\<open>dicom_to_image\<close> and the frame loop of
  \<^verbatim>\<open>convert_dicom_multiframe\<close>. A numpy array is a shape together with its
  elements in row-major order. The pixel array of a dataset holds integers of the
  dataset's dtype; it becomes a float64 array as soon as the rescale or the window is
  applied, and stays an integer array otherwise. The normalization is modelled on both:
  on a float64 array every operation is rounded to float64, on an integer array the
  subtraction wraps around in the dtype. A float64 value is a real; infinities and NaN
  are outside the model, so arrays are finite-valued and no operation overflows. The
  rescale and the bounds of the window are computed on exact reals, without the rounding
  of float64. The 8-bit raster is a list of \<open>8 word\<close>.
\<close>

subsection \<open>Arrays\<close>

record 'a ndarray =
  shape :: "nat list"
  data :: "'a list"

text \<open>\<^verbatim>\<open>pixel_array[i]\<close> on the leading axis, for an index already checked to be in range.\<close>

definition frame_at :: "'a ndarray \<Rightarrow> nat \<Rightarrow> 'a ndarray" where
  "frame_at a i =
     (let sz = prod_list (tl (shape a))
      in \<lparr>shape = tl (shape a), data = take sz (drop (i * sz) (data a))\<rparr>)"

text \<open>\<^verbatim>\<open>np.squeeze\<close>: every axis of length one is dropped, the elements stay.\<close>

definition squeeze :: "'a ndarray \<Rightarrow> 'a ndarray" where
  "squeeze a = a\<lparr>shape := filter (\<lambda>d. d \<noteq> 1) (shape a)\<rparr>"

subsection \<open>Datasets and errors\<close>

text \<open>
  A DICOM decimal attribute holds one value or several; \<^verbatim>\<open>hasattr\<close> is the
  presence of the field.
\<close>

datatype dsvalue = Single real | Multi "real list"

text \<open>The integer dtypes of a pixel array, by signedness and width.\<close>

datatype dtype = UInt8 | Int8 | UInt16 | Int16 | UInt32 | Int32

record dataset =
  pixel_array :: "int ndarray"
  pixel_dtype :: dtype
  RescaleSlope :: "real option"
  RescaleIntercept :: "real option"
  WindowCenter :: "dsvalue option"
  WindowWidth :: "dsvalue option"
  PhotometricInterpretation :: "string option"

text \<open>
  Every \<^verbatim>\<open>raise\<close> of the source is a constructor. \<open>FrameIndexOutOfRange\<close> carries
  the two values the message of line 87 is formatted from, \<open>frame_index\<close> and
  \<open>total_frames\<close>; the three shape errors carry the shapes their messages print.
\<close>

datatype error =
    FrameIndexOutOfRange int nat
  | Invalid1D "nat list" "nat list"
  | UnsupportedVolume "nat list"
  | UnsupportedDimensions "nat list"
  | EmptyReduction
  | IndexError
  | FromArrayError
  | NoImage
  | TilingFailed

subsection \<open>Frame selection and dimension checks (lines 75 to 128)\<close>

definition select_frame ::
  "int ndarray \<Rightarrow> int option \<Rightarrow> error + (int ndarray option \<times> nat)" where
  "select_frame pa frame_index =
     (if length (shape pa) = 3 then
        (if shape pa ! 2 = 3 then Inr (Some pa, 1)
         else
           (let total_frames = shape pa ! 0 in
            case frame_index of
              Some i \<Rightarrow>
                if i < 0 \<or> i \<ge> int total_frames
                then Inl (FrameIndexOutOfRange i total_frames)
                else Inr (Some (frame_at pa (nat i)), total_frames)
            | None \<Rightarrow>
                if total_frames = 1 then Inr (Some (frame_at pa 0), total_frames)
                else Inr (None, total_frames)))
      else Inr (Some pa, 1))"

definition check_dims :: "nat list \<Rightarrow> int ndarray \<Rightarrow> error + int ndarray" where
  "check_dims original_shape pa =
     (if length (shape pa) = 1 then Inl (Invalid1D original_shape (shape pa))
      else if length (shape pa) = 3 then
        (if shape pa ! 0 > 1 \<and> shape pa ! 2 \<noteq> 3
         then Inl (UnsupportedVolume (shape pa)) else Inr pa)
      else if length (shape pa) > 3 then Inl (UnsupportedDimensions (shape pa))
      else Inr pa)"

text \<open>
  Lines 75 to 128 together: the frame to process, or \<open>None\<close> when a stack of several
  frames came without a frame index, with \<open>total_frames\<close>.
\<close>

definition extract_frame ::
  "int ndarray \<Rightarrow> int option \<Rightarrow> error + (int ndarray option \<times> nat)" where
  "extract_frame pa frame_index =
     (case select_frame pa frame_index of
        Inl e \<Rightarrow> Inl e
      | Inr (None, total_frames) \<Rightarrow> Inr (None, total_frames)
      | Inr (Some fr, total_frames) \<Rightarrow>
          (case check_dims (shape pa) (squeeze fr) of
             Inl e \<Rightarrow> Inl e
           | Inr fr' \<Rightarrow> Inr (Some fr', total_frames)))"

subsection \<open>Rescale and window (lines 130 to 148)\<close>

definition apply_rescale :: "dataset \<Rightarrow> real ndarray \<Rightarrow> real ndarray" where
  "apply_rescale ds pa =
     (case RescaleSlope ds of
        None \<Rightarrow> pa
      | Some slope \<Rightarrow>
          (case RescaleIntercept ds of
             None \<Rightarrow> pa
           | Some intercept \<Rightarrow> pa\<lparr>data := map (\<lambda>v. v * slope + intercept) (data pa)\<rparr>))"

text \<open>A list of windows gives its first value; \<^verbatim>\<open>[0]\<close> on an empty one raises.\<close>

fun first_value :: "dsvalue \<Rightarrow> error + real" where
  "first_value (Single v) = Inr v"
| "first_value (Multi []) = Inl IndexError"
| "first_value (Multi (v # vs)) = Inr v"

text \<open>\<^verbatim>\<open>np.clip\<close> is \<^verbatim>\<open>minimum(a_max, maximum(a, a_min))\<close>; the bounds are not compared.\<close>

definition np_clip :: "real \<Rightarrow> real \<Rightarrow> real \<Rightarrow> real" where
  "np_clip v a_min a_max = min a_max (max v a_min)"

definition apply_window :: "dataset \<Rightarrow> real ndarray \<Rightarrow> error + real ndarray" where
  "apply_window ds pa =
     (case WindowCenter ds of
        None \<Rightarrow> Inr pa
      | Some wc \<Rightarrow>
          (case WindowWidth ds of
             None \<Rightarrow> Inr pa
           | Some ww \<Rightarrow>
               (case first_value wc of
                  Inl e \<Rightarrow> Inl e
                | Inr window_center \<Rightarrow>
                    (case first_value ww of
                       Inl e \<Rightarrow> Inl e
                     | Inr window_width \<Rightarrow>
                         (let img_min = window_center - window_width / 2;
                              img_max = window_center + window_width / 2
                          in Inr (pa\<lparr>data := map (\<lambda>v. np_clip v img_min img_max) (data pa)\<rparr>))))))"

definition radiometric :: "dataset \<Rightarrow> real ndarray \<Rightarrow> error + real ndarray" where
  "radiometric ds pa = apply_window ds (apply_rescale ds pa)"

subsection \<open>Integer and float64 arithmetic\<close>

text \<open>
  An integer result that leaves the range of its dtype wraps around: modulo \<open>2 ^ bits\<close>
  for an unsigned dtype, and into \<open>- 2 ^ (bits - 1)\<close> up to \<open>2 ^ (bits - 1) - 1\<close> for a
  signed one.
\<close>

fun itemsize_bits :: "dtype \<Rightarrow> nat" where
  "itemsize_bits UInt8 = 8"
| "itemsize_bits Int8 = 8"
| "itemsize_bits UInt16 = 16"
| "itemsize_bits Int16 = 16"
| "itemsize_bits UInt32 = 32"
| "itemsize_bits Int32 = 32"

fun is_signed :: "dtype \<Rightarrow> bool" where
  "is_signed UInt8 = False"
| "is_signed Int8 = True"
| "is_signed UInt16 = False"
| "is_signed Int16 = True"
| "is_signed UInt32 = False"
| "is_signed Int32 = True"

definition wrap :: "dtype \<Rightarrow> int \<Rightarrow> int" where
  "wrap dt v =
     (if is_signed dt
      then (v + 2 ^ (itemsize_bits dt - 1)) mod 2 ^ itemsize_bits dt - 2 ^ (itemsize_bits dt - 1)
      else v mod 2 ^ itemsize_bits dt)"

text \<open>
  A float64 operation returns the exact result rounded to the nearest value with a
  significand of 53 bits, a tie going to the even significand. The spacing of the values
  around \<open>x\<close> is \<open>2\<close> to the power \<open>\<lfloor>log 2 \<bar>x\<bar>\<rfloor> - 52\<close>, and never less than \<open>2\<close> to
  the power \<open>-1074\<close>, the spacing of the subnormal values.
\<close>

definition round_half_even :: "real \<Rightarrow> int" where
  "round_half_even t =
     (let f = \<lfloor>t\<rfloor>; d = t - of_int f
      in if d < 1 / 2 then f else if 1 / 2 < d then f + 1 else if even f then f else f + 1)"

definition float64 :: "real \<Rightarrow> real" where
  "float64 x =
     (if x = 0 then 0
      else
        (let e = max (\<lfloor>log 2 \<bar>x\<bar>\<rfloor> - 52) (- 1074)
         in of_int (round_half_even (x / 2 powr of_int e)) * 2 powr of_int e))"

text \<open>An integer array read as float64: every integer of at most 32 bits is exact.\<close>

definition as_float64 :: "int ndarray \<Rightarrow> real ndarray" where
  "as_float64 a = \<lparr>shape = shape a, data = map of_int (data a)\<rparr>"

subsection \<open>Normalization and photometric interpretation (lines 150 to 160)\<close>

text \<open>\<^verbatim>\<open>np.min\<close> and \<^verbatim>\<open>np.max\<close> over all elements; both raise on an array without elements.\<close>

fun np_min :: "('a::linorder) list \<Rightarrow> error + 'a" where
  "np_min [] = Inl EmptyReduction"
| "np_min (v # vs) = Inr (fold min vs v)"

fun np_max :: "('a::linorder) list \<Rightarrow> error + 'a" where
  "np_max [] = Inl EmptyReduction"
| "np_max (v # vs) = Inr (fold max vs v)"

text \<open>
  \<^verbatim>\<open>astype(np.uint8)\<close> drops the fraction (towards zero) and keeps the low eight bits.
\<close>

definition astype_uint8 :: "real \<Rightarrow> 8 word" where
  "astype_uint8 v = word_of_int (if 0 \<le> v then \<lfloor>v\<rfloor> else \<lceil>v\<rceil>)"

text \<open>Lines 151 to 154 on a float64 array: three rounded operations and the cast.\<close>

definition normalize_pixels :: "real ndarray \<Rightarrow> error + 8 word ndarray" where
  "normalize_pixels pa =
     (case np_min (data pa) of
        Inl e \<Rightarrow> Inl e
      | Inr mn \<Rightarrow>
          (let shifted = map (\<lambda>v. float64 (v - mn)) (data pa) in
           case np_max shifted of
             Inl e \<Rightarrow> Inl e
           | Inr mx \<Rightarrow>
               (let scaled = (if mx > 0 then map (\<lambda>v. float64 (v / mx)) shifted else shifted)
                in Inr \<lparr>shape = shape pa,
                        data = map (\<lambda>v. astype_uint8 (float64 (v * 255))) scaled\<rparr>)))"

text \<open>
  Lines 151 to 154 on an integer array. The subtraction stays in the dtype and wraps.
  When the maximum is positive the division gives a float64 array, as above. Otherwise
  the array stays an integer array, and the product with 255, in whatever integer width,
  is cast to 8 bits: its value modulo 256.
\<close>

definition normalize_ints :: "dtype \<Rightarrow> int ndarray \<Rightarrow> error + 8 word ndarray" where
  "normalize_ints dt pa =
     (case np_min (data pa) of
        Inl e \<Rightarrow> Inl e
      | Inr mn \<Rightarrow>
          (let shifted = map (\<lambda>v. wrap dt (v - mn)) (data pa) in
           case np_max shifted of
             Inl e \<Rightarrow> Inl e
           | Inr mx \<Rightarrow>
               if mx > 0
               then Inr \<lparr>shape = shape pa,
                         data = map (\<lambda>v. astype_uint8
                                       (float64 (float64 (of_int v / of_int mx) * 255)))
                                  shifted\<rparr>
               else Inr \<lparr>shape = shape pa,
                         data = map (\<lambda>v. word_of_int (v * 255)) shifted\<rparr>))"

text \<open>
  Lines 130 to 154. The array is float64 after the rescale (an integer array times a
  Python float) and after the clip (integer array, float bounds); with neither declared
  it reaches line 151 in the dtype of the dataset.
\<close>

definition to_raster :: "dataset \<Rightarrow> int ndarray \<Rightarrow> error + 8 word ndarray" where
  "to_raster ds fr =
     (if (RescaleSlope ds \<noteq> None \<and> RescaleIntercept ds \<noteq> None)
         \<or> (WindowCenter ds \<noteq> None \<and> WindowWidth ds \<noteq> None)
      then (case radiometric ds (as_float64 fr) of
              Inl e \<Rightarrow> Inl e
            | Inr ra \<Rightarrow> normalize_pixels ra)
      else normalize_ints (pixel_dtype ds) fr)"

definition photometric_of :: "dataset \<Rightarrow> string" where
  "photometric_of ds =
     (case PhotometricInterpretation ds of None \<Rightarrow> ''MONOCHROME2'' | Some p \<Rightarrow> p)"

definition apply_photometric :: "string \<Rightarrow> 8 word ndarray \<Rightarrow> 8 word ndarray" where
  "apply_photometric photometric r =
     (if photometric = ''MONOCHROME1'' then r\<lparr>data := map (\<lambda>w. 255 - w) (data r)\<rparr> else r)"

subsection \<open>The image and the whole conversion (lines 56 to 170)\<close>

datatype mode = L | RGB

record image =
  img_mode :: mode
  pixels :: "8 word ndarray"

text \<open>
  \<^verbatim>\<open>Image.fromarray\<close>: mode L for two axes, mode RGB for anything else, which needs
  three axes with three channels last.
\<close>

definition to_image :: "8 word ndarray \<Rightarrow> error + image" where
  "to_image r =
     (if length (shape r) = 2 then Inr \<lparr>img_mode = L, pixels = r\<rparr>
      else if length (shape r) = 3 \<and> shape r ! 2 = 3 then Inr \<lparr>img_mode = RGB, pixels = r\<rparr>
      else Inl FromArrayError)"

definition dicom_to_image :: "dataset \<Rightarrow> int option \<Rightarrow> error + (image option \<times> nat)" where
  "dicom_to_image ds frame_index =
     (case extract_frame (pixel_array ds) frame_index of
        Inl e \<Rightarrow> Inl e
      | Inr (None, total_frames) \<Rightarrow> Inr (None, total_frames)
      | Inr (Some fr, total_frames) \<Rightarrow>
          (case to_raster ds fr of
             Inl e \<Rightarrow> Inl e
           | Inr r \<Rightarrow>
               (case to_image (apply_photometric (photometric_of ds) r) of
                  Inl e \<Rightarrow> Inl e
                | Inr img \<Rightarrow> Inr (Some img, total_frames))))"

subsection \<open>The frame loop of convert_dicom_multiframe (lines 363 to 446)\<close>

text \<open>
  The output directory is a map from a frame index to the image whose tiles are stored
  as \<^verbatim>\<open><base>_frame_<idx>.dzi\<close>: the file name is formatted from the index alone, and
  distinct indices give distinct names. Saving the PNG and tiling it with pyvips are
  outside the repository: \<open>dzsave frame_idx frame_image\<close> tells whether they succeed,
  and a failure is an exception inside the \<^verbatim>\<open>try\<close>, which leaves the directory as
  it was. The metadata entry of the series file is not modelled.
\<close>

record loop_state =
  converted_count :: nat
  failed_count :: nat
  outputs :: "int \<rightharpoonup> image"

text \<open>The body of the \<^verbatim>\<open>try\<close> of lines 401 to 421.\<close>

definition convert_one :: "dataset \<Rightarrow> (int \<Rightarrow> image \<Rightarrow> bool) \<Rightarrow> int \<Rightarrow> error + image" where
  "convert_one ds dzsave frame_idx =
     (case dicom_to_image ds (Some frame_idx) of
        Inl e \<Rightarrow> Inl e
      | Inr (None, n) \<Rightarrow> Inl NoImage
      | Inr (Some frame_image, n) \<Rightarrow>
          if dzsave frame_idx frame_image then Inr frame_image else Inl TilingFailed)"

fun frames_loop ::
  "dataset \<Rightarrow> (int \<Rightarrow> image \<Rightarrow> bool) \<Rightarrow> int list \<Rightarrow> loop_state \<Rightarrow> loop_state" where
  "frames_loop ds dzsave [] st = st"
| "frames_loop ds dzsave (frame_idx # rest) st =
     (if outputs st frame_idx \<noteq> None then frames_loop ds dzsave rest st
      else
        (case convert_one ds dzsave frame_idx of
           Inr frame_image \<Rightarrow>
             frames_loop ds dzsave rest
               (st\<lparr>converted_count := converted_count st + 1,
                   outputs := (outputs st)(frame_idx \<mapsto> frame_image)\<rparr>)
         | Inl e \<Rightarrow>
             frames_loop ds dzsave rest (st\<lparr>failed_count := failed_count st + 1\<rparr>)))"

definition frames_to_convert :: "nat \<Rightarrow> int option \<Rightarrow> int list" where
  "frames_to_convert n frame_number =
     (case frame_number of Some k \<Rightarrow> [k] | None \<Rightarrow> map int [0..<n])"

record series_manifest =
  base_name :: string
  total_frames :: nat
  converted_frames :: nat
  tile_size :: nat
  quality :: nat

text \<open>Lines 388 to 427: both counters start at zero.\<close>

definition run_loop ::
  "dataset \<Rightarrow> (int \<Rightarrow> image \<Rightarrow> bool) \<Rightarrow> (int \<rightharpoonup> image) \<Rightarrow> nat \<Rightarrow> int option \<Rightarrow> loop_state" where
  "run_loop ds dzsave out n frame_number =
     frames_loop ds dzsave (frames_to_convert n frame_number)
       \<lparr>converted_count = 0, failed_count = 0, outputs = out\<rparr>"

text \<open>
  The result is the series file, \<open>None\<close> where the source returns \<^verbatim>\<open>False\<close> before
  writing it, and the output directory after the run.
\<close>

definition convert_dicom_multiframe ::
  "dataset \<Rightarrow> (int \<Rightarrow> image \<Rightarrow> bool) \<Rightarrow> (int \<rightharpoonup> image) \<Rightarrow> string \<Rightarrow> nat \<Rightarrow> nat \<Rightarrow> int option
     \<Rightarrow> series_manifest option \<times> (int \<rightharpoonup> image)" where
  "convert_dicom_multiframe ds dzsave out base tsize q frame_number =
     (case dicom_to_image ds None of
        Inl e \<Rightarrow> (None, out)
      | Inr (im, n) \<Rightarrow>
          if n = 1 then (None, out)
          else
            (let st = run_loop ds dzsave out n frame_number
             in (Some \<lparr>base_name = base, total_frames = n,
                       converted_frames = converted_count st,
                       tile_size = tsize, quality = q\<rparr>,
                 outputs st)))"

subsection \<open>The specification's wording, for comparison\<close>


text \<open>
  The rescale as the specification words it: applied when a slope or an intercept is
  declared, an absent slope read as 1 and an absent intercept as 0.
\<close>

definition rescale_defaults_spec :: "dataset \<Rightarrow> real ndarray \<Rightarrow> real ndarray" where
  "rescale_defaults_spec ds pa =
     (if RescaleSlope ds \<noteq> None \<or> RescaleIntercept ds \<noteq> None
      then pa\<lparr>data := map (\<lambda>v. v * (case RescaleSlope ds of None \<Rightarrow> 1 | Some s \<Rightarrow> s)
                                 + (case RescaleIntercept ds of None \<Rightarrow> 0 | Some b \<Rightarrow> b))
                          (data pa)\<rparr>
      else pa)"

subsection \<open>A concrete series\<close>

text \<open>
  Three frames of 2 by 2 pixels of 16 bits, with no rescale, no window and the default
  photometric interpretation; a file with one such frame; a tiler that always succeeds
  and one that fails on a given frame; an output directory without any frame.
\<close>

definition stack3 :: dataset where
  "stack3 = \<lparr>pixel_array = \<lparr>shape = [3, 2, 2], data = [0, 1, 2, 4, 0, 2, 4, 8, 0, 3, 8, 8]\<rparr>,
      pixel_dtype = UInt16,
      RescaleSlope = None, RescaleIntercept = None,
      WindowCenter = None, WindowWidth = None, PhotometricInterpretation = None\<rparr>"

definition single_frame :: dataset where
  "single_frame = \<lparr>pixel_array = \<lparr>shape = [2, 2], data = [0, 3, 8, 8]\<rparr>,
      pixel_dtype = UInt16,
      RescaleSlope = None, RescaleIntercept = None,
      WindowCenter = None, WindowWidth = None, PhotometricInterpretation = None\<rparr>"

definition tiler_ok :: "int \<Rightarrow> image \<Rightarrow> bool" where
  "tiler_ok frame_idx frame_image = True"

definition tiler_fails_on :: "int \<Rightarrow> int \<Rightarrow> image \<Rightarrow> bool" where
  "tiler_fails_on k frame_idx frame_image = (frame_idx \<noteq> k)"

definition no_outputs :: "int \<rightharpoonup> image" where
  "no_outputs = Map.empty"

section \<open>Float64 rounding\<close>

lemma round_half_even_int: "round_half_even (of_int n) = n"
  by (simp add: round_half_even_def)

lemma round_half_even_bounds: "\<lfloor>t\<rfloor> \<le> round_half_even t" "round_half_even t \<le> \<lfloor>t\<rfloor> + 1"
  by (simp_all add: round_half_even_def Let_def)

lemma round_half_even_mono:
  assumes "s \<le> t"
  shows "round_half_even s \<le> round_half_even t"
proof (cases "\<lfloor>s\<rfloor> = \<lfloor>t\<rfloor>")
  case True
  then show ?thesis using assms by (auto simp: round_half_even_def Let_def)
next
  case False
  with assms have "\<lfloor>s\<rfloor> + 1 \<le> \<lfloor>t\<rfloor>" using floor_mono [OF assms] by linarith
  with round_half_even_bounds(2) [of s] round_half_even_bounds(1) [of t] show ?thesis
    by linarith
qed

lemma float64_zero: "float64 0 = 0"
  by (simp add: float64_def)

lemma float64_nonneg:
  assumes "0 \<le> x"
  shows "0 \<le> float64 x"
proof (cases "x = 0")
  case True
  then show ?thesis by (simp add: float64_def)
next
  case False
  define e where "e = max (\<lfloor>log 2 \<bar>x\<bar>\<rfloor> - 52) (- 1074)"
  have "0 \<le> x / 2 powr of_int e" using assms by simp
  from round_half_even_mono [OF this] have "0 \<le> round_half_even (x / 2 powr of_int e)"
    using round_half_even_int [of 0] by simp
  then show ?thesis using False by (simp add: float64_def e_def [symmetric] Let_def)
qed

lemma log2_floor_bounds:
  assumes "0 < x"
  shows "2 powr of_int \<lfloor>log 2 x\<rfloor> \<le> x" "x < 2 powr (of_int \<lfloor>log 2 x\<rfloor> + 1)"
proof -
  have "of_int \<lfloor>log 2 x\<rfloor> \<le> log 2 x" by simp
  then have "2 powr of_int \<lfloor>log 2 x\<rfloor> \<le> 2 powr log 2 x" by simp
  then show "2 powr of_int \<lfloor>log 2 x\<rfloor> \<le> x" using assms by simp
  have "log 2 x < of_int \<lfloor>log 2 x\<rfloor> + 1" by linarith
  then have "2 powr log 2 x < 2 powr (of_int \<lfloor>log 2 x\<rfloor> + 1)" by simp
  then show "x < 2 powr (of_int \<lfloor>log 2 x\<rfloor> + 1)" using assms by simp
qed

lemma float64_mono_nonneg:
  assumes "0 \<le> x" "x \<le> y"
  shows "float64 x \<le> float64 y"
proof (cases "x = 0")
  case True
  then show ?thesis using float64_nonneg [of y] assms by (simp add: float64_zero)
next
  case False
  with assms have xp: "0 < x" and yp: "0 < y" by simp_all
  define ex where "ex = max (\<lfloor>log 2 x\<rfloor> - 52) (- 1074)"
  define ey where "ey = max (\<lfloor>log 2 y\<rfloor> - 52) (- 1074)"
  have fx: "float64 x = of_int (round_half_even (x / 2 powr of_int ex)) * 2 powr of_int ex"
    using xp by (simp add: float64_def ex_def Let_def)
  have fy: "float64 y = of_int (round_half_even (y / 2 powr of_int ey)) * 2 powr of_int ey"
    using yp by (simp add: float64_def ey_def Let_def)
  have "log 2 x \<le> log 2 y" using xp assms(2) by simp
  then have "\<lfloor>log 2 x\<rfloor> \<le> \<lfloor>log 2 y\<rfloor>" by (rule floor_mono)
  then have le: "ex \<le> ey" by (simp add: ex_def ey_def)
  show ?thesis
  proof (cases "ex = ey")
    case True
    have "x / 2 powr of_int ey \<le> y / 2 powr of_int ey"
      using assms(2) by (simp add: divide_right_mono)
    from round_half_even_mono [OF this]
    have "real_of_int (round_half_even (x / 2 powr of_int ey)) * 2 powr of_int ey
        \<le> real_of_int (round_half_even (y / 2 powr of_int ey)) * 2 powr of_int ey"
      by (intro mult_right_mono) simp_all
    then show ?thesis unfolding fx fy True .
  next
    case False
    with le have lt: "ex + 1 \<le> ey" by simp
    then have eyv: "ey = \<lfloor>log 2 y\<rfloor> - 52" by (simp add: ey_def ex_def)
    have "2 powr (of_int ey + 52) \<le> y"
      using log2_floor_bounds(1) [OF yp] by (simp add: eyv)
    then have "2 powr 52 * 2 powr of_int ey \<le> y" by (simp add: powr_add mult.commute)
    then have "2 powr 52 \<le> y / 2 powr of_int ey" by (simp add: pos_le_divide_eq)
    then have "of_int (2 ^ 52) \<le> y / 2 powr of_int ey" by (simp add: powr_numeral)
    from round_half_even_mono [OF this]
    have "2 ^ 52 \<le> round_half_even (y / 2 powr of_int ey)"
      by (simp only: round_half_even_int)
    then have "(2::real) ^ 52 \<le> of_int (round_half_even (y / 2 powr of_int ey))"
      by (metis of_int_le_iff of_int_numeral of_int_power)
    then have up: "2 ^ 52 * 2 powr of_int ey \<le> float64 y"
      unfolding fy by (intro mult_right_mono) simp_all
    have "of_int \<lfloor>log 2 x\<rfloor> + 1 \<le> (of_int ex + 53 :: real)"
    proof -
      have "\<lfloor>log 2 x\<rfloor> - 52 \<le> ex" by (simp add: ex_def)
      then have "\<lfloor>log 2 x\<rfloor> + 1 \<le> ex + 53" by simp
      then show ?thesis by (metis of_int_1 of_int_add of_int_le_iff of_int_numeral)
    qed
    then have "(2::real) powr (of_int \<lfloor>log 2 x\<rfloor> + 1) \<le> 2 powr (of_int ex + 53)"
      by (simp only: powr_le_cancel_iff)
    with log2_floor_bounds(2) [OF xp] have "x < 2 powr (of_int ex + 53)"
      by (rule less_le_trans)
    then have "x < 2 powr 53 * 2 powr of_int ex" by (simp add: powr_add mult.commute)
    then have "x / 2 powr of_int ex \<le> 2 powr 53" by (simp add: pos_divide_le_eq)
    then have "x / 2 powr of_int ex \<le> of_int (2 ^ 53)" by (simp add: powr_numeral)
    from round_half_even_mono [OF this]
    have "round_half_even (x / 2 powr of_int ex) \<le> 2 ^ 53"
      by (simp only: round_half_even_int)
    then have "of_int (round_half_even (x / 2 powr of_int ex)) \<le> (2::real) ^ 53"
      by (metis of_int_le_iff of_int_numeral of_int_power)
    then have "float64 x \<le> 2 ^ 53 * 2 powr of_int ex"
      unfolding fx by (intro mult_right_mono) simp_all
    also have "\<dots> = 2 ^ 52 * 2 powr (of_int ex + 1)" by (simp add: powr_add)
    also have "\<dots> \<le> 2 ^ 52 * 2 powr of_int ey"
    proof -
      have "(of_int ex + 1 :: real) \<le> of_int ey" using lt
        by (metis of_int_1 of_int_add of_int_le_iff)
      then have "2 powr (of_int ex + 1) \<le> (2::real) powr of_int ey"
        by (simp only: powr_le_cancel_iff)
      then show ?thesis by simp
    qed
    finally show ?thesis using up by simp
  qed
qed

lemma float64_exact:
  fixes m :: int and k :: nat
  assumes "\<bar>m\<bar> < 2 ^ 53" "k \<le> 1074"
  shows "float64 (of_int m / 2 ^ k) = of_int m / 2 ^ k"
proof (cases "m = 0")
  case True
  then show ?thesis by (simp add: float64_def)
next
  case False
  define x :: real where "x = of_int m / 2 ^ k"
  have xn: "x \<noteq> 0" using False by (simp add: x_def)
  have ax: "\<bar>x\<bar> = of_int \<bar>m\<bar> / 2 ^ k" by (simp add: x_def)
  have "real_of_int \<bar>m\<bar> < 2 ^ 53" using assms(1)
    by (metis of_int_less_iff of_int_numeral of_int_power)
  then have "\<bar>x\<bar> < 2 ^ 53 / 2 ^ k" unfolding ax by (simp add: divide_strict_right_mono)
  also have "\<dots> = 2 powr (53 - real k)"
    by (simp add: powr_diff powr_realpow [symmetric])
  finally have "\<bar>x\<bar> < 2 powr (53 - real k)" .
  then have "log 2 \<bar>x\<bar> < 53 - real k" using xn by (simp add: log_less_iff)
  then have "\<lfloor>log 2 \<bar>x\<bar>\<rfloor> < 53 - int k" by (simp add: floor_less_iff)
  then have l: "\<lfloor>log 2 \<bar>x\<bar>\<rfloor> - 52 \<le> - int k" by simp
  define e where "e = max (\<lfloor>log 2 \<bar>x\<bar>\<rfloor> - 52) (- 1074)"
  have ek: "e \<le> - int k" using l assms(2) by (simp add: e_def)
  define n where "n = nat (- int k - e)"
  have en: "e = - int k - int n" using ek by (simp add: n_def)
  have p: "(2::real) powr of_int e = 1 / (2 ^ k * 2 ^ n)"
    unfolding en by (simp add: powr_diff powr_minus powr_realpow field_simps)
  have q: "x / 2 powr of_int e = of_int (m * 2 ^ n)"
    unfolding p x_def by simp
  have "float64 x = of_int (round_half_even (x / 2 powr of_int e)) * 2 powr of_int e"
    using xn by (simp add: float64_def e_def Let_def)
  also have "\<dots> = of_int (m * 2 ^ n) * 2 powr of_int e"
    unfolding q by (simp only: round_half_even_int)
  also have "\<dots> = x" unfolding p x_def by simp
  finally show ?thesis unfolding x_def .
qed

lemma float64_int: "\<bar>m\<bar> < 2 ^ 53 \<Longrightarrow> float64 (of_int m) = of_int m"
  using float64_exact [of m 0] by simp

lemma float64_values:
  "float64 1 = 1" "float64 2 = 2" "float64 3 = 3" "float64 8 = 8" "float64 255 = 255"
  "float64 (1 / 2) = 1 / 2" "float64 (1 / 4) = 1 / 4" "float64 (3 / 8) = 3 / 8"
  "float64 (255 / 2) = 255 / 2" "float64 (255 / 4) = 255 / 4" "float64 (765 / 8) = 765 / 8"
  using float64_exact [of 1 0] float64_exact [of 2 0] float64_exact [of 3 0]
    float64_exact [of 8 0] float64_exact [of 255 0] float64_exact [of 1 1]
    float64_exact [of 1 2] float64_exact [of 3 3] float64_exact [of 255 1]
    float64_exact [of 255 2] float64_exact [of 765 3]
  by simp_all

section \<open>Normalization\<close>

lemma np_min_Min: "vs \<noteq> [] \<Longrightarrow> np_min vs = Inr (Min (set vs))"
  by (cases vs) (simp_all add: Min.set_eq_fold [symmetric])

lemma np_max_Max: "vs \<noteq> [] \<Longrightarrow> np_max vs = Inr (Max (set vs))"
  by (cases vs) (simp_all add: Max.set_eq_fold [symmetric])

lemma Max_shifted:
  assumes "vs \<noteq> []"
  shows "Max (set (map (\<lambda>v. float64 (v - Min (set vs))) vs))
           = float64 (Max (set vs) - Min (set vs))"
proof (rule Max_eqI)
  show "finite (set (map (\<lambda>v. float64 (v - Min (set vs))) vs))" by simp
  show "float64 (Max (set vs) - Min (set vs)) \<in> set (map (\<lambda>v. float64 (v - Min (set vs))) vs)"
    using assms by (auto intro!: imageI)
  fix y assume "y \<in> set (map (\<lambda>v. float64 (v - Min (set vs))) vs)"
  then obtain v where v: "v \<in> set vs" and y: "y = float64 (v - Min (set vs))" by auto
  have "0 \<le> v - Min (set vs)" "v - Min (set vs) \<le> Max (set vs) - Min (set vs)"
    using v by simp_all
  then show "y \<le> float64 (Max (set vs) - Min (set vs))"
    unfolding y by (rule float64_mono_nonneg)
qed


text \<open>On a float64 array with at least one element the normalization is one map over it.\<close>

lemma normalize_pixels_closed:
  assumes "data pa \<noteq> []"
  shows "normalize_pixels pa =
    Inr \<lparr>shape = shape pa,
         data = map (\<lambda>v. astype_uint8 (float64
                  ((if 0 < float64 (Max (set (data pa)) - Min (set (data pa)))
                    then float64 (float64 (v - Min (set (data pa)))
                                   / float64 (Max (set (data pa)) - Min (set (data pa))))
                    else float64 (v - Min (set (data pa)))) * 255))) (data pa)\<rparr>"
proof -
  let ?mn = "Min (set (data pa))"
  let ?sh = "map (\<lambda>v. float64 (v - ?mn)) (data pa)"
  have mn: "np_min (data pa) = Inr ?mn" using assms by (rule np_min_Min)
  have "?sh \<noteq> []" using assms by simp
  then have "np_max ?sh = Inr (Max (set ?sh))" by (rule np_max_Max)
  then have mx: "np_max ?sh = Inr (float64 (Max (set (data pa)) - ?mn))"
    using Max_shifted [OF assms] by simp
  show ?thesis
    unfolding normalize_pixels_def mn using mx by (simp add: Let_def o_def)
qed

text \<open>
  The integer path wraps: on the 16-bit signed frame -32768, 32767 the subtraction of the
  minimum gives 0 and -1, the maximum is not positive, and the products 0 and -255 are
  stored as 0 and 1.
\<close>

lemma normalize_ints_wraps:
  "normalize_ints Int16 \<lparr>shape = [1, 2], data = [- 32768, 32767]\<rparr>
     = Inr \<lparr>shape = [1, 2], data = [0, 1]\<rparr>"
  by (simp add: normalize_ints_def wrap_def)




section \<open>Photometric interpretation\<close>

lemma unat_255_minus: "unat (255 - w :: 8 word) = 255 - unat w"
proof -
  have "unat w < 2 ^ 8" using unsigned_less [of w, where ?'a = nat] by simp
  then have "unat w \<le> unat (255 :: 8 word)" by simp
  then have "w \<le> 255" by (simp only: word_le_nat_alt)
  then show ?thesis by (simp add: unat_sub)
qed

text \<open>
  C7. For every array \<open>x\<close> with a pixel at position \<open>p\<close>, the normalization returns a
  raster, and the value at \<open>p\<close> under MONOCHROME1 is 255 minus the value at \<open>p\<close>
  under MONOCHROME2.
\<close>

theorem photometric_inversion:
  assumes "p < length (data x)"
  shows "\<exists>r. normalize_pixels x = Inr r \<and> p < length (data r)
           \<and> unat (data (apply_photometric ''MONOCHROME1'' r) ! p)
               = 255 - unat (data (apply_photometric ''MONOCHROME2'' r) ! p)"
proof -
  from assms have ne: "data x \<noteq> []" by auto
  show ?thesis
    unfolding normalize_pixels_closed [OF ne] using assms
    by (simp add: apply_photometric_def unat_255_minus)
qed

theorem photometric_inversion_witness:
  "(1::nat) < length (data \<lparr>shape = [2, 2], data = [0, 3, 8, 8::real]\<rparr>) \<and>
   (\<exists>r. normalize_pixels \<lparr>shape = [2, 2], data = [0, 3, 8, 8]\<rparr> = Inr r
        \<and> unat (data (apply_photometric ''MONOCHROME1'' r) ! 1) = 160
        \<and> unat (data (apply_photometric ''MONOCHROME2'' r) ! 1) = 95)"
  using photometric_inversion [of 1 "\<lparr>shape = [2, 2], data = [0, 3, 8, 8]\<rparr>"]
  by (auto simp: normalize_pixels_def astype_uint8_def apply_photometric_def
      float64_values float64_zero)




section \<open>Windowing\<close>

lemma np_clip_idem: "np_clip (np_clip v lo hi) lo hi = np_clip v lo hi"
  by (simp add: np_clip_def min_def max_def)

text \<open>
  C9. For every array and every declared window, clipping the clipped array again with
  the same window returns the clipped array.
\<close>

theorem window_idempotent:
  assumes "apply_window ds pa = Inr pa'"
  shows "apply_window ds pa' = Inr pa'"
  using assms
  by (auto simp: apply_window_def Let_def np_clip_idem o_def split: option.splits sum.splits)

theorem window_idempotent_witness:
  "apply_window \<lparr>pixel_array = \<lparr>shape = [1, 3], data = [-24, 976, -1024]\<rparr>,
        pixel_dtype = Int16,
        RescaleSlope = None, RescaleIntercept = None,
        WindowCenter = Some (Single 40), WindowWidth = Some (Single 400),
        PhotometricInterpretation = None\<rparr>
      \<lparr>shape = [1, 3], data = [-24, 976, -1024]\<rparr>
     = Inr \<lparr>shape = [1, 3], data = [-24, 240, -160]\<rparr>
   \<and> apply_window \<lparr>pixel_array = \<lparr>shape = [1, 3], data = [-24, 976, -1024]\<rparr>,
        pixel_dtype = Int16,
        RescaleSlope = None, RescaleIntercept = None,
        WindowCenter = Some (Single 40), WindowWidth = Some (Single 400),
        PhotometricInterpretation = None\<rparr>
      \<lparr>shape = [1, 3], data = [-24, 240, -160]\<rparr>
     = Inr \<lparr>shape = [1, 3], data = [-24, 240, -160]\<rparr>"
proof -
  let ?ds = "\<lparr>pixel_array = \<lparr>shape = [1, 3], data = [-24, 976, -1024]\<rparr>,
        pixel_dtype = Int16,
        RescaleSlope = None, RescaleIntercept = None,
        WindowCenter = Some (Single 40), WindowWidth = Some (Single 400),
        PhotometricInterpretation = None\<rparr>"
  have h: "apply_window ?ds \<lparr>shape = [1, 3], data = [-24, 976, -1024]\<rparr>
             = Inr \<lparr>shape = [1, 3], data = [-24, 240, -160]\<rparr>"
    by (simp add: apply_window_def np_clip_def)
  from window_idempotent [OF h] h show ?thesis by simp
qed

section \<open>Rescale before window\<close>

text \<open>
  C3. When slope, intercept, window center and window width are all declared, a center
  or width given as a list counting by its first value, the radiometric stage returns
  the array in which every raw value is first rescaled to \<open>raw * slope + intercept\<close> and
  the rescaled value is then clipped with the bounds \<open>center - width / 2\<close> and
  \<open>center + width / 2\<close>; for a width that is not negative every element of the result
  lies between the two bounds.
\<close>

theorem rescale_then_window:
  assumes "RescaleSlope ds = Some slope" "RescaleIntercept ds = Some intercept"
    and "WindowCenter ds = Some wc" "wc = Single center \<or> wc = Multi (center # cs)"
    and "WindowWidth ds = Some ww" "ww = Single width \<or> ww = Multi (width # ws)"
  shows "\<exists>r. radiometric ds pa = Inr r \<and> shape r = shape pa
           \<and> data r = map (\<lambda>raw. min (center + width / 2)
                                  (max (raw * slope + intercept) (center - width / 2)))
                         (data pa)
           \<and> (0 \<le> width \<longrightarrow>
                (\<forall>v \<in> set (data r). center - width / 2 \<le> v \<and> v \<le> center + width / 2))"
proof -
  have c: "first_value wc = Inr center" and w: "first_value ww = Inr width"
    using assms(4,6) by auto
  have eq: "radiometric ds pa =
      Inr (pa\<lparr>data := map (\<lambda>raw. min (center + width / 2)
                                  (max (raw * slope + intercept) (center - width / 2)))
                         (data pa)\<rparr>)"
    using assms(1,2,3,5) c w
    by (simp add: radiometric_def apply_rescale_def apply_window_def np_clip_def o_def)
  have "center - width / 2 \<le> min (center + width / 2) (max v (center - width / 2))
      \<and> min (center + width / 2) (max v (center - width / 2)) \<le> center + width / 2"
    if "0 \<le> width" for v
    using that by (simp add: min_def max_def)
  then show ?thesis unfolding eq by auto
qed

text \<open>
  The scenario of the specification: raw 1000 with slope 1 and intercept -1024 becomes
  -24 and stays; 2000 and 0 become 976 and -1024 and are clipped to 240 and -160.
\<close>

theorem rescale_then_window_witness:
  "radiometric
     \<lparr>pixel_array = \<lparr>shape = [1, 3], data = [1000, 2000, 0]\<rparr>,
      pixel_dtype = Int16,
      RescaleSlope = Some 1, RescaleIntercept = Some (- 1024),
      WindowCenter = Some (Multi [40, 300]), WindowWidth = Some (Single 400),
      PhotometricInterpretation = None\<rparr>
     \<lparr>shape = [1, 3], data = [1000, 2000, 0]\<rparr>
   = Inr \<lparr>shape = [1, 3], data = [- 24, 240, - 160]\<rparr>"
  using rescale_then_window
    [of "\<lparr>pixel_array = \<lparr>shape = [1, 3], data = [1000, 2000, 0]\<rparr>,
      pixel_dtype = Int16,
      RescaleSlope = Some 1, RescaleIntercept = Some (- 1024),
      WindowCenter = Some (Multi [40, 300]), WindowWidth = Some (Single 400),
      PhotometricInterpretation = None\<rparr>" 1 "- 1024" "Multi [40, 300]" 40 "[300]"
      "Single 400" 400 "[]" "\<lparr>shape = [1, 3], data = [1000, 2000, 0]\<rparr>"]
  by auto

section \<open>Rescale coefficients\<close>

text \<open>
  C4, as the code has it. When both the slope and the intercept are declared every
  value becomes \<open>raw * slope + intercept\<close>; when either of them is absent the array is
  left as it is.
\<close>

theorem rescale_needs_both:
  "(RescaleSlope ds = Some slope \<and> RescaleIntercept ds = Some intercept \<longrightarrow>
      apply_rescale ds pa = pa\<lparr>data := map (\<lambda>raw. raw * slope + intercept) (data pa)\<rparr>)
   \<and> (RescaleSlope ds = None \<or> RescaleIntercept ds = None \<longrightarrow> apply_rescale ds pa = pa)"
  by (auto simp: apply_rescale_def split: option.splits)

theorem rescale_needs_both_witness:
  "apply_rescale
     \<lparr>pixel_array = \<lparr>shape = [1, 3], data = [1, 2, 3]\<rparr>,
      pixel_dtype = Int16,
      RescaleSlope = Some 2, RescaleIntercept = Some 5,
      WindowCenter = None, WindowWidth = None, PhotometricInterpretation = None\<rparr>
     \<lparr>shape = [1, 3], data = [1, 2, 3]\<rparr> = \<lparr>shape = [1, 3], data = [7, 9, 11]\<rparr>
   \<and> apply_rescale
     \<lparr>pixel_array = \<lparr>shape = [1, 3], data = [1, 2, 3]\<rparr>,
      pixel_dtype = Int16,
      RescaleSlope = Some 2, RescaleIntercept = None,
      WindowCenter = None, WindowWidth = None, PhotometricInterpretation = None\<rparr>
     \<lparr>shape = [1, 3], data = [1, 2, 3]\<rparr> = \<lparr>shape = [1, 3], data = [1, 2, 3]\<rparr>"
  using rescale_needs_both
    [of "\<lparr>pixel_array = \<lparr>shape = [1, 3], data = [1, 2, 3]\<rparr>,
      pixel_dtype = Int16,
      RescaleSlope = Some 2, RescaleIntercept = Some 5,
      WindowCenter = None, WindowWidth = None, PhotometricInterpretation = None\<rparr>" 2 5
      "\<lparr>shape = [1, 3], data = [1, 2, 3]\<rparr>"]
    rescale_needs_both
    [of "\<lparr>pixel_array = \<lparr>shape = [1, 3], data = [1, 2, 3]\<rparr>,
      pixel_dtype = Int16,
      RescaleSlope = Some 2, RescaleIntercept = None,
      WindowCenter = None, WindowWidth = None, PhotometricInterpretation = None\<rparr>" 2 0
      "\<lparr>shape = [1, 3], data = [1, 2, 3]\<rparr>"]
  by simp

text \<open>
  C4 as stated fails: with a slope of 2 and no intercept the frame 0, 1, 2, 4 is not
  rescaled to 0, 2, 4, 8. With the window 1 to 3 the image differs from the image of the
  same dataset with the intercept 0 written out.
\<close>

theorem slope_only_counterexample:
  "apply_rescale
     \<lparr>pixel_array = \<lparr>shape = [2, 2], data = [0, 1, 2, 4]\<rparr>,
      pixel_dtype = Int16,
      RescaleSlope = Some 2, RescaleIntercept = None,
      WindowCenter = Some (Single 2), WindowWidth = Some (Single 2),
      PhotometricInterpretation = None\<rparr>
     \<lparr>shape = [2, 2], data = [0, 1, 2, 4]\<rparr> = \<lparr>shape = [2, 2], data = [0, 1, 2, 4]\<rparr>
   \<and> rescale_defaults_spec
     \<lparr>pixel_array = \<lparr>shape = [2, 2], data = [0, 1, 2, 4]\<rparr>,
      pixel_dtype = Int16,
      RescaleSlope = Some 2, RescaleIntercept = None,
      WindowCenter = Some (Single 2), WindowWidth = Some (Single 2),
      PhotometricInterpretation = None\<rparr>
     \<lparr>shape = [2, 2], data = [0, 1, 2, 4]\<rparr> = \<lparr>shape = [2, 2], data = [0, 2, 4, 8]\<rparr>
   \<and> dicom_to_image
     \<lparr>pixel_array = \<lparr>shape = [2, 2], data = [0, 1, 2, 4]\<rparr>,
      pixel_dtype = Int16,
      RescaleSlope = Some 2, RescaleIntercept = None,
      WindowCenter = Some (Single 2), WindowWidth = Some (Single 2),
      PhotometricInterpretation = None\<rparr> None
     = Inr (Some \<lparr>img_mode = L, pixels = \<lparr>shape = [2, 2], data = [0, 0, 127, 255]\<rparr>\<rparr>, 1)
   \<and> dicom_to_image
     \<lparr>pixel_array = \<lparr>shape = [2, 2], data = [0, 1, 2, 4]\<rparr>,
      pixel_dtype = Int16,
      RescaleSlope = Some 2, RescaleIntercept = Some 0,
      WindowCenter = Some (Single 2), WindowWidth = Some (Single 2),
      PhotometricInterpretation = None\<rparr> None
     = Inr (Some \<lparr>img_mode = L, pixels = \<lparr>shape = [2, 2], data = [0, 127, 255, 255]\<rparr>\<rparr>, 1)"
  by (simp add: apply_rescale_def rescale_defaults_spec_def dicom_to_image_def
      extract_frame_def select_frame_def check_dims_def squeeze_def to_raster_def
      as_float64_def radiometric_def apply_window_def np_clip_def normalize_pixels_def
      astype_uint8_def photometric_of_def apply_photometric_def to_image_def
      float64_values float64_zero)

section \<open>Frame selection\<close>

lemma take_drop_nth:
  assumes "i * sz + sz \<le> length xs"
  shows "take sz (drop (i * sz) xs) = map (\<lambda>k. xs ! (i * sz + k)) [0..<sz]"
  using assms by (intro nth_equalityI) simp_all

text \<open>
  C5. For a stack of \<open>N\<close> frames of \<open>H\<close> by \<open>W\<close> pixels (\<open>W\<close> other than 3, which
  would read as colour channels) and a requested index \<open>i\<close>: when \<open>0 \<le> i < N\<close> the
  selection returns frame \<open>i\<close>, of shape \<open>H\<close> by \<open>W\<close>, whose elements are those of
  the stack from position \<open>i * (H * W)\<close> on; otherwise it fails with
  \<open>FrameIndexOutOfRange i N\<close>.
\<close>

theorem frame_bounds:
  assumes "shape pa = [N, H, W]" "W \<noteq> 3"
  shows "(0 \<le> i \<and> i < int N \<longrightarrow>
            select_frame pa (Some i) = Inr (Some (frame_at pa (nat i)), N)
            \<and> shape (frame_at pa (nat i)) = [H, W]
            \<and> (length (data pa) = N * (H * W) \<longrightarrow>
                 data (frame_at pa (nat i))
                   = map (\<lambda>k. data pa ! (nat i * (H * W) + k)) [0..<H * W]))
       \<and> (\<not> (0 \<le> i \<and> i < int N) \<longrightarrow>
            select_frame pa (Some i) = Inl (FrameIndexOutOfRange i N))"
proof -
  have sel: "0 \<le> i \<and> i < int N \<Longrightarrow>
      select_frame pa (Some i) = Inr (Some (frame_at pa (nat i)), N)"
    using assms by (simp add: select_frame_def)
  have sh: "shape (frame_at pa (nat i)) = [H, W]"
    using assms by (simp add: frame_at_def Let_def)
  have dt: "data (frame_at pa (nat i)) = map (\<lambda>k. data pa ! (nat i * (H * W) + k)) [0..<H * W]"
    if "0 \<le> i \<and> i < int N" "length (data pa) = N * (H * W)"
  proof -
    from that have "Suc (nat i) \<le> N" by linarith
    then have "Suc (nat i) * (H * W) \<le> N * (H * W)" by (rule mult_le_mono1)
    then have "nat i * (H * W) + H * W \<le> length (data pa)" using that by simp
    from take_drop_nth [OF this] show ?thesis using assms by (simp add: frame_at_def Let_def)
  qed
  have bad: "\<not> (0 \<le> i \<and> i < int N) \<Longrightarrow>
      select_frame pa (Some i) = Inl (FrameIndexOutOfRange i N)"
    using assms by (auto simp: select_frame_def)
  from sel sh dt bad show ?thesis by blast
qed

text \<open>
  A stack of 50 frames: index 50 fails with \<open>FrameIndexOutOfRange 50 50\<close>, index 49 is
  selected; and frame 1 of a stack of two 1 by 2 frames.
\<close>

theorem frame_bounds_witness:
  "select_frame \<lparr>shape = [50, 2, 2], data = replicate 200 0\<rparr> (Some 50)
     = Inl (FrameIndexOutOfRange 50 50)
   \<and> select_frame \<lparr>shape = [50, 2, 2], data = replicate 200 0\<rparr> (Some 49)
     = Inr (Some (frame_at \<lparr>shape = [50, 2, 2], data = replicate 200 0\<rparr> 49), 50)
   \<and> select_frame \<lparr>shape = [2, 1, 2], data = [5, 6, 7, 8]\<rparr> (Some 1)
     = Inr (Some \<lparr>shape = [1, 2], data = [7, 8]\<rparr>, 2)"
  using frame_bounds [of "\<lparr>shape = [50, 2, 2], data = replicate 200 0\<rparr>" 50 2 2 50]
    frame_bounds [of "\<lparr>shape = [50, 2, 2], data = replicate 200 0\<rparr>" 50 2 2 49]
    frame_bounds [of "\<lparr>shape = [2, 1, 2], data = [5, 6, 7, 8]\<rparr>" 2 1 2 1]
  by (simp add: frame_at_def Let_def)

section \<open>Two-dimensional shapes\<close>

lemma normalize_pixels_shape: "normalize_pixels pa = Inr r \<Longrightarrow> shape r = shape pa"
  by (auto simp: normalize_pixels_def Let_def split: sum.splits)

lemma normalize_ints_shape: "normalize_ints dt pa = Inr r \<Longrightarrow> shape r = shape pa"
  by (auto simp: normalize_ints_def Let_def split: sum.splits if_splits)

lemma radiometric_shape: "radiometric ds pa = Inr r \<Longrightarrow> shape r = shape pa"
  by (auto simp: radiometric_def apply_rescale_def apply_window_def Let_def
      split: option.splits sum.splits)

lemma to_raster_shape:
  assumes "to_raster ds fr = Inr r"
  shows "shape r = shape fr"
proof (cases "(RescaleSlope ds \<noteq> None \<and> RescaleIntercept ds \<noteq> None)
         \<or> (WindowCenter ds \<noteq> None \<and> WindowWidth ds \<noteq> None)")
  case True
  with assms obtain ra where ra: "radiometric ds (as_float64 fr) = Inr ra"
    and r: "normalize_pixels ra = Inr r"
    by (auto simp: to_raster_def split: sum.splits)
  from radiometric_shape [OF ra] normalize_pixels_shape [OF r] show ?thesis
    by (simp add: as_float64_def)
next
  case False
  with assms have "normalize_ints (pixel_dtype ds) fr = Inr r"
    by (auto simp: to_raster_def)
  then show ?thesis by (rule normalize_ints_shape)
qed

text \<open>
  C2, as the code has it. A pixel buffer with exactly two axes, neither of length 1, is
  kept whole as the single frame, whatever frame index is requested: no error is raised,
  \<open>total_frames\<close> is 1, and every image the conversion returns for it is a grayscale
  image of the same two axes.
\<close>

theorem two_dimensions:
  assumes "shape (pixel_array ds) = [H, W]"
  shows "H \<noteq> 1 \<and> W \<noteq> 1 \<longrightarrow>
            extract_frame (pixel_array ds) frame_index = Inr (Some (pixel_array ds), 1)
            \<and> (\<forall>img n. dicom_to_image ds frame_index = Inr (img, n) \<longrightarrow>
                  n = 1 \<and> (\<exists>im. img = Some im \<and> img_mode im = L \<and> shape (pixels im) = [H, W]))"
proof -
  have sel: "select_frame (pixel_array ds) frame_index = Inr (Some (pixel_array ds), 1)"
    using assms by (simp add: select_frame_def)
  have a: "extract_frame (pixel_array ds) frame_index = Inr (Some (pixel_array ds), 1)"
    if "H \<noteq> 1 \<and> W \<noteq> 1"
    using assms that by (simp add: extract_frame_def sel squeeze_def check_dims_def)
  have b: "n = 1 \<and> (\<exists>im. img = Some im \<and> img_mode im = L \<and> shape (pixels im) = [H, W])"
    if h: "H \<noteq> 1 \<and> W \<noteq> 1" and d: "dicom_to_image ds frame_index = Inr (img, n)"
    for img n
  proof -
    from d obtain r im where r: "to_raster ds (pixel_array ds) = Inr r"
      and im: "to_image (apply_photometric (photometric_of ds) r) = Inr im"
      and res: "img = Some im" "n = 1"
      by (auto simp: dicom_to_image_def a [OF h] split: sum.splits)
    have "shape (apply_photometric (photometric_of ds) r) = [H, W]"
      using to_raster_shape [OF r] assms by (simp add: apply_photometric_def)
    with im have "img_mode im = L \<and> shape (pixels im) = [H, W]"
      by (auto simp: to_image_def)
    with res show ?thesis by simp
  qed
  from a b show ?thesis by blast
qed

theorem two_dimensions_witness:
  "extract_frame \<lparr>shape = [2, 2], data = [0, 3, 8, 8]\<rparr> None
     = Inr (Some \<lparr>shape = [2, 2], data = [0, 3, 8, 8]\<rparr>, 1)
   \<and> dicom_to_image
        \<lparr>pixel_array = \<lparr>shape = [2, 2], data = [0, 3, 8, 8]\<rparr>,
         pixel_dtype = Int16,
         RescaleSlope = None, RescaleIntercept = None,
         WindowCenter = None, WindowWidth = None, PhotometricInterpretation = None\<rparr> None
     = Inr (Some \<lparr>img_mode = L, pixels = \<lparr>shape = [2, 2], data = [0, 95, 255, 255]\<rparr>\<rparr>, 1)"
proof -
  let ?ds = "\<lparr>pixel_array = \<lparr>shape = [2, 2], data = [0, 3, 8, 8]\<rparr>,
         pixel_dtype = Int16,
         RescaleSlope = None, RescaleIntercept = None,
         WindowCenter = None, WindowWidth = None, PhotometricInterpretation = None\<rparr>"
  have sh: "shape (pixel_array ?ds) = [2, 2]" by simp
  from two_dimensions [OF sh, of None]
  have e: "extract_frame \<lparr>shape = [2, 2], data = [0, 3, 8, 8]\<rparr> None
     = Inr (Some \<lparr>shape = [2, 2], data = [0, 3, 8, 8]\<rparr>, 1)"
    by simp
  have d: "dicom_to_image ?ds None
     = Inr (Some \<lparr>img_mode = L, pixels = \<lparr>shape = [2, 2], data = [0, 95, 255, 255]\<rparr>\<rparr>, 1)"
    by (simp add: dicom_to_image_def e to_raster_def normalize_ints_def wrap_def
      astype_uint8_def photometric_of_def apply_photometric_def to_image_def
      float64_values float64_zero)
  from e d show ?thesis by (rule conjI)
qed

text \<open>
  C2 as stated fails on an axis of length 1: the squeeze of line 96 drops it, and
  the 5 by 1 and the 1 by 5 buffer are rejected as one-dimensional.
\<close>

theorem unit_axis_counterexample:
  "dicom_to_image
     \<lparr>pixel_array = \<lparr>shape = [5, 1], data = [1, 2, 3, 4, 5]\<rparr>,
      pixel_dtype = Int16,
      RescaleSlope = None, RescaleIntercept = None,
      WindowCenter = None, WindowWidth = None, PhotometricInterpretation = None\<rparr> None
     = Inl (Invalid1D [5, 1] [5])
   \<and> extract_frame \<lparr>shape = [1, 5], data = [1, 2, 3, 4, 5]\<rparr> None
     = Inl (Invalid1D [1, 5] [5])"
  by (simp add: dicom_to_image_def extract_frame_def select_frame_def squeeze_def
      check_dims_def)

section \<open>The series loop\<close>

lemma frames_loop_distinct:
  assumes "distinct xs"
  shows "converted_count (frames_loop ds dz xs st) =
           converted_count st
             + length (filter (\<lambda>i. outputs st i = None \<and> \<not> isl (convert_one ds dz i)) xs)
       \<and> failed_count (frames_loop ds dz xs st) =
           failed_count st
             + length (filter (\<lambda>i. outputs st i = None \<and> isl (convert_one ds dz i)) xs)
       \<and> outputs (frames_loop ds dz xs st) =
           (\<lambda>i. if i \<in> set xs \<and> outputs st i = None
                then (case convert_one ds dz i of Inr im \<Rightarrow> Some im | Inl e \<Rightarrow> None)
                else outputs st i)"
  using assms
proof (induction xs arbitrary: st)
  case Nil
  show ?case by simp
next
  case (Cons x xs)
  from Cons.prems have nx: "x \<notin> set xs" and dx: "distinct xs" by simp_all
  note IH = Cons.IH [OF dx]
  show ?case
  proof (cases "outputs st x")
    case (Some a)
    then show ?thesis using IH [of st] nx by (auto simp: fun_eq_iff)
  next
    case None
    show ?thesis
    proof (cases "convert_one ds dz x")
      case (Inl e)
      let ?st = "st\<lparr>failed_count := failed_count st + 1\<rparr>"
      show ?thesis using IH [of ?st] None Inl nx by (auto simp: fun_eq_iff)
    next
      case (Inr im)
      let ?st = "st\<lparr>converted_count := converted_count st + 1,
                     outputs := (outputs st)(x \<mapsto> im)\<rparr>"
      have f1: "filter (\<lambda>i. outputs ?st i = None \<and> \<not> isl (convert_one ds dz i)) xs
              = filter (\<lambda>i. outputs st i = None \<and> \<not> isl (convert_one ds dz i)) xs"
        using nx by (intro filter_cong refl) auto
      have f2: "filter (\<lambda>i. outputs ?st i = None \<and> isl (convert_one ds dz i)) xs
              = filter (\<lambda>i. outputs st i = None \<and> isl (convert_one ds dz i)) xs"
        using nx by (intro filter_cong refl) auto
      show ?thesis using IH [of ?st] None Inr nx unfolding f1 f2
        by (auto simp: fun_eq_iff)
    qed
  qed
qed

lemma distinct_frames_to_convert: "distinct (frames_to_convert n frame_number)"
  by (cases frame_number) (simp_all add: frames_to_convert_def distinct_map)

lemma three_way_count:
  "length (filter (\<lambda>i. P i) xs) + length (filter (\<lambda>i. \<not> P i \<and> Q i) xs)
     + length (filter (\<lambda>i. \<not> P i \<and> \<not> Q i) xs) = length xs"
  by (induction xs) auto

text \<open>The concrete series, evaluated.\<close>

lemmas pipeline_defs =
  dicom_to_image_def extract_frame_def select_frame_def check_dims_def squeeze_def
  frame_at_def to_raster_def normalize_ints_def wrap_def astype_uint8_def
  photometric_of_def apply_photometric_def to_image_def float64_values float64_zero

lemma stack3_frames: "frames_to_convert 3 None = [0, 1, 2]"
  by (simp add: frames_to_convert_def upt_rec)

lemma stack3_read: "dicom_to_image stack3 None = Inr (None, 3)"
  by (simp add: stack3_def pipeline_defs)

lemma stack3_image_0:
  "dicom_to_image stack3 (Some 0)
     = Inr (Some \<lparr>img_mode = L, pixels = \<lparr>shape = [2, 2], data = [0, 63, 127, 255]\<rparr>\<rparr>, 3)"
  by (simp add: stack3_def pipeline_defs)

lemma stack3_image_1:
  "dicom_to_image stack3 (Some 1)
     = Inr (Some \<lparr>img_mode = L, pixels = \<lparr>shape = [2, 2], data = [0, 63, 127, 255]\<rparr>\<rparr>, 3)"
  by (simp add: stack3_def pipeline_defs)

lemma stack3_image_2:
  "dicom_to_image stack3 (Some 2)
     = Inr (Some \<lparr>img_mode = L, pixels = \<lparr>shape = [2, 2], data = [0, 95, 255, 255]\<rparr>\<rparr>, 3)"
  by (simp add: stack3_def pipeline_defs)

lemmas stack3_images = stack3_image_0 stack3_image_1 stack3_image_2

lemma single_frame_read:
  "dicom_to_image single_frame None
     = Inr (Some \<lparr>img_mode = L, pixels = \<lparr>shape = [2, 2], data = [0, 95, 255, 255]\<rparr>\<rparr>, 1)"
  by (simp add: single_frame_def pipeline_defs)

text \<open>
  C6, as the code has it. When the first read of the file returns a frame count other
  than 1, the series file is written whatever fails inside the loop, and its
  \<open>converted_frames\<close> is the number of requested frames minus the frames that failed
  and minus the frames skipped because their output was already there; \<open>failed_count\<close>
  counts exactly the requested frames without an output whose conversion raised. When
  the first read fails, or returns the frame count 1, no series file is written and the
  output directory stays as it was.
\<close>

theorem manifest_count:
  "(dicom_to_image ds None = Inr (im, n) \<and> n \<noteq> 1 \<longrightarrow>
      (\<exists>m out'. convert_dicom_multiframe ds dz out base tsize q frame_number = (Some m, out')
         \<and> total_frames m = n
         \<and> failed_count (run_loop ds dz out n frame_number)
             = length (filter (\<lambda>i. out i = None \<and> isl (convert_one ds dz i))
                         (frames_to_convert n frame_number))
         \<and> converted_frames m
             = length (frames_to_convert n frame_number)
               - failed_count (run_loop ds dz out n frame_number)
               - length (filter (\<lambda>i. out i \<noteq> None) (frames_to_convert n frame_number))
         \<and> failed_count (run_loop ds dz out n frame_number)
               + length (filter (\<lambda>i. out i \<noteq> None) (frames_to_convert n frame_number))
             \<le> length (frames_to_convert n frame_number)))
   \<and> (dicom_to_image ds None = Inl e \<or> dicom_to_image ds None = Inr (im, 1) \<longrightarrow>
        convert_dicom_multiframe ds dz out base tsize q frame_number = (None, out))"
proof -
  let ?xs = "frames_to_convert n frame_number"
  let ?st = "run_loop ds dz out n frame_number"
  note L = frames_loop_distinct [OF distinct_frames_to_convert,
      of ds dz n frame_number "\<lparr>converted_count = 0, failed_count = 0, outputs = out\<rparr>"]
  have c: "converted_count ?st
      = length (filter (\<lambda>i. out i = None \<and> \<not> isl (convert_one ds dz i)) ?xs)"
    using L by (simp add: run_loop_def)
  have f: "failed_count ?st
      = length (filter (\<lambda>i. out i = None \<and> isl (convert_one ds dz i)) ?xs)"
    using L by (simp add: run_loop_def)
  have t: "length (filter (\<lambda>i. out i \<noteq> None) ?xs)
      + length (filter (\<lambda>i. out i = None \<and> isl (convert_one ds dz i)) ?xs)
      + length (filter (\<lambda>i. out i = None \<and> \<not> isl (convert_one ds dz i)) ?xs) = length ?xs"
    using three_way_count [of "\<lambda>i. out i \<noteq> None" ?xs "\<lambda>i. isl (convert_one ds dz i)"]
    by simp
  have m: "convert_dicom_multiframe ds dz out base tsize q frame_number
      = (Some \<lparr>base_name = base, total_frames = n, converted_frames = converted_count ?st,
               tile_size = tsize, quality = q\<rparr>, outputs ?st)"
    if "dicom_to_image ds None = Inr (im, n) \<and> n \<noteq> 1"
    using that by (simp add: convert_dicom_multiframe_def Let_def)
  have written: "\<exists>m out'. convert_dicom_multiframe ds dz out base tsize q frame_number = (Some m, out')
         \<and> total_frames m = n
         \<and> failed_count ?st
             = length (filter (\<lambda>i. out i = None \<and> isl (convert_one ds dz i)) ?xs)
         \<and> converted_frames m
             = length ?xs - failed_count ?st - length (filter (\<lambda>i. out i \<noteq> None) ?xs)
         \<and> failed_count ?st + length (filter (\<lambda>i. out i \<noteq> None) ?xs) \<le> length ?xs"
    if h: "dicom_to_image ds None = Inr (im, n) \<and> n \<noteq> 1"
    unfolding m [OF h] using c f t by simp
  have unwritten: "convert_dicom_multiframe ds dz out base tsize q frame_number = (None, out)"
    if "dicom_to_image ds None = Inl e \<or> dicom_to_image ds None = Inr (im, 1)"
    using that
  proof
    assume h: "dicom_to_image ds None = Inl e"
    show ?thesis by (simp add: convert_dicom_multiframe_def h)
  next
    assume h: "dicom_to_image ds None = Inr (im, 1)"
    show ?thesis by (simp add: convert_dicom_multiframe_def h)
  qed
  show ?thesis
  proof (intro conjI impI)
    assume h: "dicom_to_image ds None = Inr (im, n) \<and> n \<noteq> 1"
    show "\<exists>m out'. convert_dicom_multiframe ds dz out base tsize q frame_number = (Some m, out')
         \<and> total_frames m = n
         \<and> failed_count ?st
             = length (filter (\<lambda>i. out i = None \<and> isl (convert_one ds dz i)) ?xs)
         \<and> converted_frames m
             = length ?xs - failed_count ?st - length (filter (\<lambda>i. out i \<noteq> None) ?xs)
         \<and> failed_count ?st + length (filter (\<lambda>i. out i \<noteq> None) ?xs) \<le> length ?xs"
      by (rule written [OF h])
  next
    assume g: "dicom_to_image ds None = Inl e \<or> dicom_to_image ds None = Inr (im, 1)"
    show "convert_dicom_multiframe ds dz out base tsize q frame_number = (None, out)"
      by (rule unwritten [OF g])
  qed
qed

text \<open>
  A fresh run over the three frames in which the tiling of frame 1 fails reports 2; a
  run on the file with one frame writes no series file.
\<close>

theorem manifest_count_witness:
  "(\<exists>m out'. convert_dicom_multiframe stack3 (tiler_fails_on 1) no_outputs ''study'' 256 90 None
       = (Some m, out')
     \<and> total_frames m = 3 \<and> converted_frames m = 2
     \<and> failed_count (run_loop stack3 (tiler_fails_on 1) no_outputs 3 None) = 1)
   \<and> convert_dicom_multiframe single_frame tiler_ok no_outputs ''study'' 256 90 (Some 0)
       = (None, no_outputs)"
proof -
  have a: "dicom_to_image stack3 None = Inr (None, 3) \<and> (3::nat) \<noteq> 1"
    by (simp add: stack3_read)
  have b: "dicom_to_image single_frame None = Inl IndexError
      \<or> dicom_to_image single_frame None
          = Inr (Some \<lparr>img_mode = L, pixels = \<lparr>shape = [2, 2], data = [0, 95, 255, 255]\<rparr>\<rparr>, 1)"
    by (simp add: single_frame_read)
  from manifest_count [of stack3 None 3 "tiler_fails_on 1" no_outputs "''study''" 256 90 None]
    a
  have 1: "\<exists>m out'. convert_dicom_multiframe stack3 (tiler_fails_on 1) no_outputs ''study'' 256 90 None
       = (Some m, out')
     \<and> total_frames m = 3 \<and> converted_frames m = 2
     \<and> failed_count (run_loop stack3 (tiler_fails_on 1) no_outputs 3 None) = 1"
    by (auto simp: stack3_frames convert_one_def stack3_images tiler_fails_on_def no_outputs_def)
  from manifest_count [of single_frame
      "Some \<lparr>img_mode = L, pixels = \<lparr>shape = [2, 2], data = [0, 95, 255, 255]\<rparr>\<rparr>" 1
      tiler_ok no_outputs "''study''" 256 90 "Some 0" IndexError] b
  have 2: "convert_dicom_multiframe single_frame tiler_ok no_outputs ''study'' 256 90 (Some 0)
       = (None, no_outputs)"
    by blast
  from 1 2 show ?thesis by (rule conjI)
qed

text \<open>
  C6 as stated fails twice. On a resumed run: three frames requested, the output of
  frame 0 already there, no frame failing, and the series file reports 2, not 3. On a
  file with one frame, with frame 0 requested: no series file is written.
\<close>

theorem resumed_run_counterexample:
  "fst (convert_dicom_multiframe stack3 tiler_ok
          (no_outputs(0 \<mapsto> \<lparr>img_mode = L, pixels = \<lparr>shape = [2, 2], data = [0, 63, 127, 255]\<rparr>\<rparr>))
          ''study'' 256 90 None)
     = Some \<lparr>base_name = ''study'', total_frames = 3, converted_frames = 2,
             tile_size = 256, quality = 90\<rparr>
   \<and> length (frames_to_convert 3 None) = 3
   \<and> failed_count (run_loop stack3 tiler_ok
          (no_outputs(0 \<mapsto> \<lparr>img_mode = L, pixels = \<lparr>shape = [2, 2], data = [0, 63, 127, 255]\<rparr>\<rparr>))
          3 None) = 0
   \<and> fst (convert_dicom_multiframe single_frame tiler_ok no_outputs ''study'' 256 90 (Some 0))
     = None"
  by (simp add: convert_dicom_multiframe_def run_loop_def stack3_read stack3_frames
      convert_one_def stack3_images single_frame_read tiler_ok_def no_outputs_def)

text \<open>
  C10. In every run whose first read of the file returns a frame count other than 1,
  an output that was there before the run is left as it was, and
  \<open>converted_frames\<close> is the number of outputs the run created: the requested frames
  that had no output and converted without an error. The outputs present after the run
  are the earlier ones and these, so the field is not the cumulative count.
\<close>

theorem skipped_not_counted:
  assumes "dicom_to_image ds None = Inr (im, n)" "n \<noteq> 1"
  shows "\<exists>m out'. convert_dicom_multiframe ds dz out base tsize q frame_number = (Some m, out')
     \<and> (\<forall>i. out i \<noteq> None \<longrightarrow> out' i = out i)
     \<and> converted_frames m = card (dom out' - dom out)
     \<and> converted_frames m
         = length (filter (\<lambda>i. out i = None \<and> \<not> isl (convert_one ds dz i))
                     (frames_to_convert n frame_number))
     \<and> (finite (dom out) \<longrightarrow> card (dom out') = card (dom out) + converted_frames m)"
proof -
  let ?xs = "frames_to_convert n frame_number"
  let ?st = "run_loop ds dz out n frame_number"
  let ?P = "\<lambda>i. out i = None \<and> \<not> isl (convert_one ds dz i)"
  note L = frames_loop_distinct [OF distinct_frames_to_convert,
      of ds dz n frame_number "\<lparr>converted_count = 0, failed_count = 0, outputs = out\<rparr>"]
  have c: "converted_count ?st = length (filter ?P ?xs)"
    using L by (simp add: run_loop_def)
  have o: "outputs ?st = (\<lambda>i. if i \<in> set ?xs \<and> out i = None
                then (case convert_one ds dz i of Inr im \<Rightarrow> Some im | Inl e \<Rightarrow> None)
                else out i)"
    using L by (simp add: run_loop_def cong: if_cong)
  have keep: "out i \<noteq> None \<longrightarrow> outputs ?st i = out i" for i
    by (simp add: o)
  have "i \<in> dom (outputs ?st) - dom out \<longleftrightarrow> i \<in> set (filter ?P ?xs)" for i
    by (cases "convert_one ds dz i"; cases "out i") (auto simp: o dom_def)
  then have new: "dom (outputs ?st) - dom out = set (filter ?P ?xs)"
    by blast
  have "distinct (filter ?P ?xs)" using distinct_frames_to_convert by (rule distinct_filter)
  then have cd: "card (dom (outputs ?st) - dom out) = length (filter ?P ?xs)"
    unfolding new by (rule distinct_card)
  have sub: "dom out \<subseteq> dom (outputs ?st)"
    unfolding o by (auto simp: dom_def)
  have fin: "finite (dom (outputs ?st) - dom out)" unfolding new by simp
  have cum: "card (dom (outputs ?st)) = card (dom out) + length (filter ?P ?xs)"
    if "finite (dom out)"
  proof -
    have "dom (outputs ?st) = dom out \<union> (dom (outputs ?st) - dom out)" using sub by auto
    moreover have "card (dom out \<union> (dom (outputs ?st) - dom out))
        = card (dom out) + card (dom (outputs ?st) - dom out)"
      using that fin by (intro card_Un_disjoint) auto
    ultimately show ?thesis using cd by simp
  qed
  have m: "convert_dicom_multiframe ds dz out base tsize q frame_number
      = (Some \<lparr>base_name = base, total_frames = n, converted_frames = converted_count ?st,
               tile_size = tsize, quality = q\<rparr>, outputs ?st)"
    using assms by (simp add: convert_dicom_multiframe_def Let_def)
  show ?thesis unfolding m using c keep cd cum by simp
qed

theorem skipped_not_counted_witness:
  "\<exists>m out'. convert_dicom_multiframe stack3 tiler_ok
          (no_outputs(0 \<mapsto> \<lparr>img_mode = RGB, pixels = \<lparr>shape = [1, 1, 3], data = [9, 9, 9]\<rparr>\<rparr>))
          ''study'' 256 90 None = (Some m, out')
     \<and> out' 0 = Some \<lparr>img_mode = RGB, pixels = \<lparr>shape = [1, 1, 3], data = [9, 9, 9]\<rparr>\<rparr>
     \<and> converted_frames m = 2"
proof -
  have n: "(3::nat) \<noteq> 1" by simp
  from skipped_not_counted [OF stack3_read n, of tiler_ok
      "no_outputs(0 \<mapsto> \<lparr>img_mode = RGB, pixels = \<lparr>shape = [1, 1, 3], data = [9, 9, 9]\<rparr>\<rparr>)"
      "''study''" 256 90 None]
  show ?thesis
    by (auto simp: stack3_frames convert_one_def stack3_images tiler_ok_def no_outputs_def)
qed

end
